theory Spec2Isabelle
  imports Main "HOL-Library.Sublist"
begin

unbundle bit_operations_syntax

section \<open>Library functions used by onionize.go\<close>

text \<open>
  Go strings are byte sequences; they are modelled as \<open>string\<close>. The functions of
  package \<open>strings\<close> that the source calls are written out for the arguments it passes.
\<close>

definition TrimLeft :: "string \<Rightarrow> string \<Rightarrow> string" where
  \<comment> \<open>\<open>strings.TrimLeft(s, cutset)\<close>: drop every leading character that occurs in \<open>cutset\<close>.\<close>
  "TrimLeft s cutset = dropWhile (\<lambda>c. c \<in> set cutset) s"

definition TrimPrefix :: "string \<Rightarrow> string \<Rightarrow> string" where
  \<comment> \<open>\<open>strings.TrimPrefix(s, pre)\<close>: remove \<open>pre\<close> once if \<open>s\<close> starts with it.\<close>
  "TrimPrefix s pre = (if prefix pre s then drop (length pre) s else s)"

definition TrimSuffix :: "string \<Rightarrow> string \<Rightarrow> string" where
  \<comment> \<open>\<open>strings.TrimSuffix(s, suf)\<close>: remove \<open>suf\<close> once if \<open>s\<close> ends with it.\<close>
  "TrimSuffix s suf = (if suffix suf s then take (length s - length suf) s else s)"

definition Replace :: "string \<Rightarrow> char \<Rightarrow> string \<Rightarrow> string" where
  \<comment> \<open>\<open>strings.Replace(s, old, new, -1)\<close> for a one-character \<open>old\<close>.\<close>
  "Replace s old new = concat (map (\<lambda>c. if c = old then new else [c]) s)"

definition Split :: "string \<Rightarrow> string \<times> string" where
  \<comment> \<open>\<open>filepath.Split\<close>: the text up to and including the last separator, and the rest.\<close>
  "Split path =
     (let file = rev (takeWhile (\<lambda>c. c \<noteq> CHR ''/'') (rev path))
      in (take (length path - length file) path, file))"

text \<open>
  \<open>crypto/subtle\<close>: a byte is a number below 256; \<open>ConstantTimeByteEq\<close> computes
  \<open>int((uint32(x ^ y) - 1) >> 31)\<close>, with the 32-bit wrap-around written out, and
  \<open>ConstantTimeCompare\<close> folds \<open>v |= x[i] ^ y[i]\<close> over slices of equal length.
\<close>

definition bytes :: "string \<Rightarrow> nat list" where
  "bytes s = map of_char s"

definition ConstantTimeByteEq :: "nat \<Rightarrow> nat \<Rightarrow> int" where
  "ConstantTimeByteEq x y = int ((((x XOR y) + 2 ^ 32 - 1) mod 2 ^ 32) div 2 ^ 31)"

definition ConstantTimeCompare :: "nat list \<Rightarrow> nat list \<Rightarrow> int" where
  "ConstantTimeCompare x y =
     (if length x \<noteq> length y then 0
      else ConstantTimeByteEq
             (fold (\<lambda>(a, b) v. (v OR (a XOR b)) mod 256) (zip x y) 0) 0)"

section \<open>The request gate\<close>

definition slugLengthB32 :: nat where
  "slugLengthB32 = 16"

record Parameters =
  Path :: string
  Zip :: bool
  Slug :: bool
  ControlPath :: string
  ControlPassword :: string
  Passphrase :: string
  Debug :: bool

text \<open>
  A \<open>*url.URL\<close> is represented by the text its \<open>String\<close> method renders, so
  \<open>req.URL.String()\<close> is the value itself; \<open>None\<close> is the nil pointer. The parser
  \<open>neturl.Parse\<close> is a parameter: it yields the rendering of the parsed URL, or \<open>None\<close>
  where Go returns \<open>(nil, err)\<close>.
\<close>

type_synonym url = string

record Request =
  URL :: "url option"

text \<open>
  The response writer, as far as \<open>ResetHTTPConn\<close> looks at it: either it does not
  implement \<open>http.Hijacker\<close>, or \<open>Hijack\<close> answers with an error or with the connection.
\<close>

datatype ResponseWriter = PlainWriter | Hijacker "string option"

datatype effect =
    Printf string
  | ConnClose
  | Redirect string nat
  | ServeHTTP Request
  | NilDereference

definition ResetHTTPConn :: "ResponseWriter \<Rightarrow> string option \<times> effect list" where
  "ResetHTTPConn w =
     (case w of
        PlainWriter \<Rightarrow> (Some ''This webserver doesn't support hijacking'', [])
      | Hijacker (Some err) \<Rightarrow> (Some err, [])
      | Hijacker None \<Rightarrow> (None, [ConnClose]))"

text \<open>
  \<open>CheckAndRewriteSlug\<close> returns the error (\<open>None\<close> is nil) and the request as it
  leaves it. The outer \<open>None\<close> is the panic of \<open>req.URL.String()\<close> on a nil URL.
\<close>

definition CheckAndRewriteSlug ::
  "(string \<Rightarrow> url option) \<Rightarrow> Request \<Rightarrow> string \<Rightarrow> (string option \<times> Request) option" where
  "CheckAndRewriteSlug Parse req slug =
     (if slug = '''' then Some (None, req)
      else case URL req of
        None \<Rightarrow> None
      | Some u \<Rightarrow>
          (let reqURL = TrimLeft u ''/'' in
           if length reqURL < length slug
           then Some (Some ''URL is too short to have a slug in it'', req)
           else if 1 \<noteq> ConstantTimeCompare (bytes slug) (bytes (take (length slug) reqURL))
           then Some (Some ''Wrong slug'', req)
           else Some (None, req\<lparr>URL := Parse (TrimPrefix reqURL slug)\<rparr>)))"

definition fmtURL :: "url option \<Rightarrow> string" where
  \<comment> \<open>what the verb \<open>%s\<close> prints for a \<open>*url.URL\<close>, between the two double quotes\<close>
  "fmtURL u = CHR 0x22 # (case u of None \<Rightarrow> ''<nil>'' | Some s \<Rightarrow> s) @ [CHR 0x22]"

text \<open>
  The function registered on the mux for \<open>/\<close>, as the list of its effects in order.
  \<open>ServeHTTP r\<close> is the call of the file server on the request \<open>r\<close>.
\<close>

definition handler ::
  "(string \<Rightarrow> url option) \<Rightarrow> Parameters \<Rightarrow> string \<Rightarrow> ResponseWriter \<Rightarrow> Request \<Rightarrow> effect list" where
  "handler Parse p slug w req =
     (if Debug p then [Printf (''Request for '' @ fmtURL (URL req))] else []) @
     (case CheckAndRewriteSlug Parse req slug of
        None \<Rightarrow> [NilDereference]
      | Some (Some err, req') \<Rightarrow>
          (if Debug p then [Printf err] else []) @
          (case ResetHTTPConn w of
             (Some err', es) \<Rightarrow> es @ [Printf (''Unable to reset connection: '' @ err')]
           | (None, es) \<Rightarrow> es)
      | Some (None, req') \<Rightarrow>
          (case URL req' of
             None \<Rightarrow> [NilDereference]
           | Some u \<Rightarrow>
               (if u = '''' then [Redirect (''/'' @ slug @ ''/'') 302] else []) @
               (if Debug p then [Printf (''Rewriting URL to '' @ fmtURL (Some u))] else []) @
               [ServeHTTP req']))"

text \<open>
  A parser for the examples. It agrees with \<open>neturl.Parse\<close> on the references used
  there: one that starts with a colon is refused (missing protocol scheme), the empty
  reference and a plain absolute path are rendered back as they are.
\<close>

definition sampleParse :: "string \<Rightarrow> url option" where
  "sampleParse s =
     (case s of [] \<Rightarrow> Some [] | c # _ \<Rightarrow> if c = CHR '':'' then None else Some s)"

definition isPrintf :: "effect \<Rightarrow> bool" where
  "isPrintf e = (case e of Printf _ \<Rightarrow> True | _ \<Rightarrow> False)"

definition visible :: "effect list \<Rightarrow> effect list" where
  \<comment> \<open>the effects other than lines of the local log\<close>
  "visible es = filter (\<lambda>e. \<not> isPrintf e) es"

section \<open>The lifecycle\<close>

record ResultLink =
  linkURL :: string
  linkError :: "string option"

text \<open>The fields of \<open>bulb.NewOnionConfig\<close> that the source sets.\<close>

record NewOnionConfig =
  DiscardPK :: bool
  AwaitForUpload :: bool
  PrivateKey :: "string option"

datatype ContentSource =
    ZipFS string
  | DirFS string
  | PickFS string "(string \<times> string) list"

datatype ServeResult = ServesOn | ServeReturns "string option"

text \<open>
  What the world outside answers to each call that \<open>Onionize\<close> makes. A fallible call
  yields \<open>Inl err\<close> or \<open>Inr value\<close>, and \<open>Some err\<close> or \<open>None\<close> when it
  returns only an error. \<open>Serve\<close> tells how \<open>server.Serve\<close> ends: it keeps serving, or
  it returns. \<open>NextEvent_error = Some (k, err)\<close> says that \<open>c.NextEvent()\<close> reports
  \<open>err\<close> to the monitoring goroutine when the main flow has taken \<open>k\<close> more steps
  after the \<open>go\<close> statement; \<open>None\<close> says that it never reports an error.
\<close>

record World =
  rand_Read :: "nat \<Rightarrow> string + string"
  Base32Encode :: "string \<Rightarrow> string"
  zip_OpenReader :: "string \<Rightarrow> string option"
  os_Stat :: "string \<Rightarrow> string + bool"
  filepath_Abs :: "string \<Rightarrow> string + string"
  QueryEscape :: "string \<Rightarrow> string"
  DialURL :: "string \<Rightarrow> string option"
  Authenticate :: "string \<Rightarrow> string option"
  KeystreamReader :: "string \<Rightarrow> string \<Rightarrow> string + string"
  GenerateOnionKey :: "string \<Rightarrow> string + string"
  NewListener :: "NewOnionConfig \<Rightarrow> nat \<Rightarrow> string + string"
  Serve :: ServeResult
  NextEvent_error :: "(nat \<times> string) option"

text \<open>
  The steps of an invocation that the claims are about, in the order they happen:
  \<open>Send\<close> is \<open>linkCh <- r\<close>, \<open>Dialed\<close> the control connection returned by
  \<open>bulb.DialURL\<close>, \<open>NewListenerCall\<close> the call \<open>c.NewListener(aocfg, 80)\<close>,
  \<open>GoMonitor\<close> the \<open>go\<close> statement, \<open>ServeStart\<close> the call of \<open>server.Serve\<close>
  (with the slug and the content source of its handler), \<open>CloseControl\<close> and
  \<open>CloseListener\<close> the two deferred calls, \<open>Fatalf\<close> a call of \<open>log.Fatalf\<close>,
  which ends the process with \<open>os.Exit(1)\<close>.
\<close>

datatype event =
    Send ResultLink
  | Dialed
  | NewListenerCall NewOnionConfig nat
  | GoMonitor
  | ServeStart string ContentSource
  | CloseControl
  | CloseListener
  | Fatalf string

text \<open>
  How the flow ends: the function returns, the process exits, the slice expression
  panics, or the flow stays in \<open>server.Serve\<close>.
\<close>

datatype ending = Returned | Exited | Panicked | Serving

type_synonym run = "event list \<times> ending"

definition errLink :: "string \<Rightarrow> ResultLink" where
  \<comment> \<open>\<open>ResultLink{Error: ...}\<close>\<close>
  "errLink msg = \<lparr>linkURL = '''', linkError = Some msg\<rparr>"

definition okLink :: "string \<Rightarrow> string \<Rightarrow> ResultLink" where
  \<comment> \<open>\<open>ResultLink{URL: fmt.Sprintf("http://%s/%s", onionHost, url)}\<close>\<close>
  "okLink onionHost url = \<lparr>linkURL = ''http://'' @ onionHost @ ''/'' @ url, linkError = None\<rparr>"

definition failWith :: "string \<Rightarrow> run" where
  \<comment> \<open>\<open>linkCh <- ResultLink{Error: ...}; return\<close>\<close>
  "failWith msg = ([Send (errLink msg)], Returned)"

definition after :: "event list \<Rightarrow> run \<Rightarrow> run" where
  "after evs r = (evs @ fst r, snd r)"

definition deferred :: "event \<Rightarrow> run \<Rightarrow> run" where
  \<comment> \<open>a \<open>defer\<close>: the call runs when the function returns or panics, not on \<open>os.Exit\<close>\<close>
  "deferred ev r =
     (case snd r of
        Returned \<Rightarrow> (fst r @ [ev], Returned)
      | Panicked \<Rightarrow> (fst r @ [ev], Panicked)
      | Exited \<Rightarrow> r
      | Serving \<Rightarrow> r)"

definition makeSlug :: "World \<Rightarrow> Parameters \<Rightarrow> run + (string \<times> string)" where
  \<comment> \<open>lines 80 to 89: the slug and the path of the link so far\<close>
  "makeSlug w p =
     (if Slug p then
        (case rand_Read w ((slugLengthB32 * 5) div 8 + 1) of
           Inl err \<Rightarrow> Inl (failWith (''Unable to generate slug: '' @ err))
         | Inr slugBin \<Rightarrow>
             (let enc = Base32Encode w slugBin in
              if length enc < slugLengthB32 then Inl ([], Panicked)
              else Inr (take slugLengthB32 enc, take slugLengthB32 enc @ ''/'')))
      else Inr ('''', ''''))"

definition makeFS :: "World \<Rightarrow> Parameters \<Rightarrow> string \<Rightarrow> run + (ContentSource \<times> string)" where
  \<comment> \<open>lines 91 to 123: the content source and the path of the link\<close>
  "makeFS w p url =
     (if Zip p then
        (case zip_OpenReader w (Path p) of
           Some err \<Rightarrow> Inl (failWith (''Unable to open zip archive: '' @ err))
         | None \<Rightarrow> Inr (ZipFS (Path p), url))
      else
        (case os_Stat w (Path p) of
           Inl err \<Rightarrow> Inl (failWith (''Unable to open path: '' @ err))
         | Inr isDir \<Rightarrow>
             if isDir then Inr (DirFS (Path p), url)
             else
               (case filepath_Abs w (Path p) of
                  Inl err \<Rightarrow> Inl (failWith ''Unable to get absolute path to file'')
                | Inr abspath \<Rightarrow>
                    (let (dir, file) = Split abspath;
                         escapedFilename = Replace (QueryEscape w file) CHR ''+'' ''%20''
                     in Inr (PickFS dir [(file, file)], url @ escapedFilename)))))"

definition makeConfig :: "World \<Rightarrow> Parameters \<Rightarrow> run + NewOnionConfig" where
  \<comment> \<open>lines 169 to 185\<close>
  "makeConfig w p =
     (let aocfg = \<lparr>DiscardPK = True, AwaitForUpload = True, PrivateKey = None\<rparr> in
      if Passphrase p \<noteq> '''' then
        (case KeystreamReader w (Passphrase p) ''onionize-keygen'' of
           Inl err \<Rightarrow> Inl (failWith (''Unable to create keystream: '' @ err))
         | Inr keyrd \<Rightarrow>
             (case GenerateOnionKey w keyrd of
                Inl err \<Rightarrow> Inl (failWith (''Unable to generate onion key: '' @ err))
              | Inr privOnionKey \<Rightarrow> Inr (aocfg\<lparr>PrivateKey := Some privOnionKey\<rparr>)))
      else Inr aocfg)"

definition serve :: "World \<Rightarrow> string \<Rightarrow> ContentSource \<Rightarrow> run" where
  \<comment> \<open>lines 206 to 209\<close>
  "serve w slug fs =
     (case Serve w of
        ServesOn \<Rightarrow> ([ServeStart slug fs], Serving)
      | ServeReturns None \<Rightarrow> ([ServeStart slug fs], Returned)
      | ServeReturns (Some err) \<Rightarrow> ([ServeStart slug fs, Fatalf ''Cannot serve HTTP''], Exited))"

definition publish :: "World \<Rightarrow> Parameters \<Rightarrow> string \<Rightarrow> string \<Rightarrow> ContentSource \<Rightarrow> run" where
  \<comment> \<open>lines 152 to 209, without the goroutine's own steps\<close>
  "publish w p slug url fs =
     (case DialURL w (ControlPath p) of
        Some err \<Rightarrow> failWith (''Failed to connect to control socket: '' @ err)
      | None \<Rightarrow>
          after [Dialed] (deferred CloseControl
            (case Authenticate w (ControlPassword p) of
               Some err \<Rightarrow> failWith (''Authentication failed: '' @ err)
             | None \<Rightarrow>
                 (case makeConfig w p of
                    Inl r \<Rightarrow> r
                  | Inr aocfg \<Rightarrow>
                      after [NewListenerCall aocfg 80]
                        (case NewListener w aocfg 80 of
                           Inl err \<Rightarrow>
                             failWith (''Error occured while creating an onion service: '' @ err)
                         | Inr addr \<Rightarrow>
                             deferred CloseListener
                               (after
                                  [GoMonitor, Send (okLink (TrimSuffix addr '':80'') url)]
                                  (serve w slug fs)))))))"

definition Onionize_main :: "World \<Rightarrow> Parameters \<Rightarrow> run" where
  "Onionize_main w p =
     (case makeSlug w p of
        Inl r \<Rightarrow> r
      | Inr (slug, url) \<Rightarrow>
          (case makeFS w p url of
             Inl r \<Rightarrow> r
           | Inr (fs, url') \<Rightarrow> publish w p slug url' fs))"

definition lostTor :: "string \<Rightarrow> event" where
  \<comment> \<open>line 197, in the goroutine\<close>
  "lostTor err = Fatalf (''Lost connection to tor: '' @ err)"

text \<open>
  The whole invocation: the main flow, cut short by the goroutine's \<open>log.Fatalf\<close> at the
  step where \<open>c.NextEvent()\<close> reports its error. Before the \<open>go\<close> statement there is
  no goroutine; after a \<open>log.Fatalf\<close> of the main flow there is no process.
\<close>

definition Onionize :: "World \<Rightarrow> Parameters \<Rightarrow> run" where
  "Onionize w p =
     (let (evs, e) = Onionize_main w p in
      case NextEvent_error w of
        None \<Rightarrow> (evs, e)
      | Some (k, err) \<Rightarrow>
          if GoMonitor \<notin> set evs then (evs, e)
          else
            (let n = Suc (length (takeWhile (\<lambda>x. x \<noteq> GoMonitor) evs)) in
             if n + k < length evs then (take (n + k) evs @ [lostTor err], Exited)
             else if e = Exited then (evs, e)
             else (evs @ [lostTor err], Exited)))"

definition isSend :: "event \<Rightarrow> bool" where
  "isSend x = (case x of Send _ \<Rightarrow> True | _ \<Rightarrow> False)"

definition isTail :: "event \<Rightarrow> bool" where
  \<comment> \<open>the steps that can follow the sending of the link\<close>
  "isTail x =
     (case x of
        ServeStart _ _ \<Rightarrow> True
      | CloseControl \<Rightarrow> True
      | CloseListener \<Rightarrow> True
      | Fatalf _ \<Rightarrow> True
      | _ \<Rightarrow> False)"

text \<open>A world for the examples, in which every call succeeds, and an invocation.\<close>

definition world0 :: World where
  "world0 =
     \<lparr>rand_Read = (\<lambda>n. Inr (replicate n CHR ''r'')),
      Base32Encode = (\<lambda>b. ''abcdefghijklmnopqr======''),
      zip_OpenReader = (\<lambda>path. None),
      os_Stat = (\<lambda>path. Inr True),
      filepath_Abs = (\<lambda>path. Inr path),
      QueryEscape = (\<lambda>s. s),
      DialURL = (\<lambda>path. None),
      Authenticate = (\<lambda>password. None),
      KeystreamReader = (\<lambda>secret label. Inr (label @ secret)),
      GenerateOnionKey = (\<lambda>keyrd. Inr keyrd),
      NewListener = (\<lambda>cfg port. Inr ''onionaddress.onion:80''),
      Serve = ServesOn,
      NextEvent_error = None\<rparr>"

definition params0 :: Parameters where
  "params0 =
     \<lparr>Path = ''site'', Zip = False, Slug = True, ControlPath = ''default://'',
      ControlPassword = '''', Passphrase = '''', Debug = False\<rparr>"




section \<open>Properties of the library functions\<close>

lemma bytes_eq_iff: "(bytes s = bytes t) = (s = t)"
  unfolding bytes_def by (simp add: inj_map_eq_map inj_of_char)

lemma or_xor_zero: "((v::nat) OR (a XOR b)) = 0 \<longleftrightarrow> v = 0 \<and> a = b"
  by (metis xor_self_eq xor.left_neutral or_eq_0_iff xor.left_commute xor.commute)

lemma accumulate_mod:
  assumes "v < 256" "a < 256" "b < 256"
  shows "((v::nat) OR (a XOR b)) mod 256 = v OR (a XOR b)"
proof -
  have "take_bit 8 (v OR (a XOR b)) = take_bit 8 v OR (take_bit 8 a XOR take_bit 8 b)"
    by (simp only: take_bit_or take_bit_xor)
  also have "\<dots> = v OR (a XOR b)"
    using assms by (simp add: take_bit_nat_eq_self)
  finally show ?thesis by (simp add: take_bit_eq_mod)
qed

lemma ConstantTimeByteEq_zero:
  assumes "x < 256"
  shows "ConstantTimeByteEq x 0 = (if x = 0 then 1 else 0)"
proof (cases "x = 0")
  case True
  then show ?thesis by (simp add: ConstantTimeByteEq_def)
next
  case False
  then obtain y where y: "x = Suc y" by (cases x) auto
  have "(x + 2 ^ 32 - 1) mod 2 ^ 32 = (y + 2 ^ 32) mod (2 ^ 32 :: nat)"
    by (simp add: y)
  also have "\<dots> = y"
    using assms y by simp
  finally have "(x + 2 ^ 32 - 1) mod 2 ^ 32 = y" .
  moreover have "y div 2 ^ 31 = 0" using assms y by simp
  ultimately show ?thesis using False
    by (simp only: ConstantTimeByteEq_def xor.right_neutral) simp
qed

lemma fold_accumulate_zero:
  "v < 256 \<Longrightarrow> length s = length t \<Longrightarrow>
   (fold (\<lambda>(a, b) v. (v OR (a XOR b)) mod 256) (zip (bytes s) (bytes t)) v = 0)
     = (v = 0 \<and> s = t)"
proof (induction s arbitrary: t v)
  case Nil
  then show ?case by (simp add: bytes_def)
next
  case (Cons c s)
  then obtain d t' where t: "t = d # t'" by (cases t) auto
  have lt: "(of_char c :: nat) < 256" "(of_char d :: nat) < 256" by simp_all
  let ?v = "(v OR (of_char c XOR of_char d)) mod 256"
  have v': "?v < 256" by simp
  have "(?v = 0) = (v = 0 \<and> c = d)"
    using accumulate_mod [OF Cons.prems(1) lt] or_xor_zero [of v "of_char c" "of_char d"]
    by simp
  moreover have "length s = length t'" using Cons.prems t by simp
  ultimately show ?case using Cons.IH [OF v', of t'] t by (auto simp: bytes_def)
qed

lemma fold_accumulate_bound:
  "v < 256 \<Longrightarrow> fold (\<lambda>(a, b) v. (v OR (a XOR b)) mod 256) xs v < (256::nat)"
  by (induction xs arbitrary: v) auto

lemma ConstantTimeCompare_bytes:
  "ConstantTimeCompare (bytes s) (bytes t) = (if s = t then 1 else 0)"
proof (cases "length s = length t")
  case False
  then show ?thesis by (auto simp: ConstantTimeCompare_def bytes_def)
next
  case True
  have "fold (\<lambda>(a, b) v. (v OR (a XOR b)) mod 256) (zip (bytes s) (bytes t)) 0 < (256::nat)"
    by (rule fold_accumulate_bound) simp
  then show ?thesis
    using True fold_accumulate_zero [of 0 s t]
    by (simp add: ConstantTimeCompare_def ConstantTimeByteEq_zero bytes_def)
qed

lemma TrimLeft_slash: "TrimLeft u ''/'' = dropWhile (\<lambda>c. c = CHR ''/'') u"
  by (simp add: TrimLeft_def)

lemma take_eq_prefix:
  "length slug \<le> length t \<Longrightarrow> (take (length slug) t = slug) = prefix slug t"
  by (metis append_eq_conv_conj prefix_def append_take_drop_id)

section \<open>What the gate computes\<close>

lemma CheckAndRewriteSlug_cases:
  assumes "slug \<noteq> ''''" and "URL req = Some u"
  shows "CheckAndRewriteSlug Parse req slug =
     Some (if length (TrimLeft u ''/'') < length slug
           then (Some ''URL is too short to have a slug in it'', req)
           else if \<not> prefix slug (TrimLeft u ''/'')
           then (Some ''Wrong slug'', req)
           else (None, req\<lparr>URL := Parse (drop (length slug) (TrimLeft u ''/''))\<rparr>))"
proof -
  let ?t = "TrimLeft u ''/''"
  show ?thesis
  proof (cases "length ?t < length slug")
    case True
    then show ?thesis using assms by (simp add: CheckAndRewriteSlug_def Let_def)
  next
    case False
    then have eq: "(take (length slug) ?t = slug) = prefix slug ?t"
      by (simp add: take_eq_prefix)
    have cmp: "ConstantTimeCompare (bytes slug) (bytes (take (length slug) ?t))
                 = (if prefix slug ?t then 1 else 0)"
      using eq by (auto simp: ConstantTimeCompare_bytes)
    show ?thesis using assms False
      by (simp add: CheckAndRewriteSlug_def Let_def cmp TrimPrefix_def)
  qed
qed

lemma CheckAndRewriteSlug_mismatch:
  assumes "slug \<noteq> ''''" and "URL req = Some u" and "\<not> prefix slug (TrimLeft u ''/'')"
  shows "\<exists>err. CheckAndRewriteSlug Parse req slug = Some (Some err, req)"
  using CheckAndRewriteSlug_cases [OF assms(1,2), of Parse] assms(3) by simp

lemma CheckAndRewriteSlug_match:
  assumes "slug \<noteq> ''''" and "URL req = Some u" and "prefix slug (TrimLeft u ''/'')"
  shows "CheckAndRewriteSlug Parse req slug =
           Some (None, req\<lparr>URL := Parse (drop (length slug) (TrimLeft u ''/''))\<rparr>)"
proof -
  have "\<not> length (TrimLeft u ''/'') < length slug"
    using assms(3) by (auto dest: prefix_length_le)
  then show ?thesis
    using CheckAndRewriteSlug_cases [OF assms(1,2), of Parse] assms(3) by simp
qed

section \<open>What the handler does\<close>

lemma visible_append: "visible (xs @ ys) = visible xs @ visible ys"
  by (simp add: visible_def)

lemma visible_debug [simp]: "visible (if b then [Printf m] else []) = []"
  by (simp add: visible_def isPrintf_def)

lemma visible_ResetHTTPConn:
  "visible (case ResetHTTPConn w of
              (Some err', es) \<Rightarrow> es @ [Printf (''Unable to reset connection: '' @ err')]
            | (None, es) \<Rightarrow> es)
     = (if w = Hijacker None then [ConnClose] else [])"
  by (auto simp: ResetHTTPConn_def visible_def isPrintf_def
           split: ResponseWriter.splits option.splits)

lemma handler_rejects:
  assumes "CheckAndRewriteSlug Parse req slug = Some (Some err, req')"
  shows "visible (handler Parse p slug w req) = (if w = Hijacker None then [ConnClose] else [])"
  using assms visible_ResetHTTPConn [of w]
  by (simp add: handler_def visible_append)

lemma handler_accepts:
  assumes "CheckAndRewriteSlug Parse req slug = Some (None, req')"
  shows "visible (handler Parse p slug w req) =
           (case URL req' of
              None \<Rightarrow> [NilDereference]
            | Some u \<Rightarrow> (if u = '''' then [Redirect (''/'' @ slug @ ''/'') 302] else [])
                          @ [ServeHTTP req'])"
  using assms
  by (auto simp: handler_def visible_append visible_def isPrintf_def split: option.splits)

lemma handler_mismatch:
  assumes "slug \<noteq> ''''" and "URL req = Some u" and "\<not> prefix slug (TrimLeft u ''/'')"
  shows "visible (handler Parse p slug w req) = (if w = Hijacker None then [ConnClose] else [])"
proof -
  obtain err where "CheckAndRewriteSlug Parse req slug = Some (Some err, req)"
    using CheckAndRewriteSlug_mismatch [OF assms] by blast
  then show ?thesis by (rule handler_rejects)
qed

lemma handler_match:
  assumes "slug \<noteq> ''''" and "URL req = Some u" and "prefix slug (TrimLeft u ''/'')"
  shows "visible (handler Parse p slug w req) =
           (case Parse (drop (length slug) (TrimLeft u ''/'')) of
              None \<Rightarrow> [NilDereference]
            | Some r \<Rightarrow> (if r = '''' then [Redirect (''/'' @ slug @ ''/'') 302] else [])
                          @ [ServeHTTP (req\<lparr>URL := Some r\<rparr>)])"
  using handler_accepts [OF CheckAndRewriteSlug_match [OF assms], where p = p and w = w]
  by (simp split: option.splits)

lemma handler_no_slug:
  assumes "URL req = Some u"
  shows "visible (handler Parse p '''' w req) =
           (if u = '''' then [Redirect ''//'' 302] else []) @ [ServeHTTP req]"
proof -
  have "CheckAndRewriteSlug Parse req '''' = Some (None, req)"
    by (simp add: CheckAndRewriteSlug_def)
  from handler_accepts [OF this, where p = p and w = w] assms show ?thesis by simp
qed

lemma visible_member: "x \<in> set es \<Longrightarrow> \<not> isPrintf x \<Longrightarrow> x \<in> set (visible es)"
  by (simp add: visible_def)

lemma member_visible: "x \<in> set (visible es) \<Longrightarrow> x \<in> set es"
  by (simp add: visible_def)

lemma not_isPrintf [simp]:
  "\<not> isPrintf (ServeHTTP r)" "\<not> isPrintf (Redirect l c)" "\<not> isPrintf ConnClose"
  "\<not> isPrintf NilDereference"
  by (simp_all add: isPrintf_def)

lemma TrimLeft_slashes:
  assumes "CHR ''/'' \<notin> set slug" and "slug \<noteq> ''''"
  shows "TrimLeft (replicate n CHR ''/'' @ slug @ rest) ''/'' = slug @ rest"
proof -
  obtain c cs where slug: "slug = c # cs" using assms(2) by (cases slug) auto
  then have "c \<noteq> CHR ''/''" using assms(1) by auto
  then show ?thesis
    by (simp add: TrimLeft_def slug dropWhile_append)
qed

section \<open>Claims about the gate and the handler\<close>



text \<open>
  C3, as the spec states it, fails: under slug mode the bare root path \<open>/\<close> is too short
  to hold the slug, so the request is rejected like any other mismatch and no redirect
  is written. Without a slug the handler still compares the URL text with the empty
  string, and redirects to \<open>//\<close> when it is empty.
\<close>

theorem root_path_not_redirected:
  "Redirect ''/abcdefghijklmnop/'' 302
     \<notin> set (handler sampleParse params0 ''abcdefghijklmnop'' (Hijacker None) \<lparr>URL = Some ''/''\<rparr>)
   \<and> visible (handler sampleParse params0 ''abcdefghijklmnop'' (Hijacker None) \<lparr>URL = Some ''/''\<rparr>)
       = [ConnClose]
   \<and> Redirect ''//'' 302
       \<in> set (handler sampleParse params0 '''' (Hijacker None) \<lparr>URL = Some ''''\<rparr>)"
proof -
  let ?h = "handler sampleParse params0 ''abcdefghijklmnop'' (Hijacker None) \<lparr>URL = Some ''/''\<rparr>"
  have v: "visible ?h = [ConnClose]"
    using handler_mismatch [of "''abcdefghijklmnop''" "\<lparr>URL = Some ''/''\<rparr>" "''/''"
        sampleParse params0 "Hijacker None"]
    by (simp add: TrimLeft_def)
  have "Redirect ''/abcdefghijklmnop/'' 302 \<notin> set ?h"
  proof
    assume "Redirect ''/abcdefghijklmnop/'' 302 \<in> set ?h"
    then have "Redirect ''/abcdefghijklmnop/'' 302 \<in> set (visible ?h)"
      by (rule visible_member) simp
    then show False using v by simp
  qed
  moreover have "Redirect ''//'' 302
       \<in> set (visible (handler sampleParse params0 '''' (Hijacker None) \<lparr>URL = Some ''''\<rparr>))"
    using handler_no_slug [of "\<lparr>URL = Some ''''\<rparr>" "''''" sampleParse params0 "Hijacker None"]
    by simp
  ultimately show ?thesis using v by (simp add: member_visible)
qed

text \<open>
  C3, amended. Under slug mode a request for exactly the slug path (the URL is the slug
  after its leading separators, so nothing is left once the slug is stripped) gets a
  302 redirect to \<open>"/" + slug + "/"\<close>, while the bare root path \<open>/\<close> is rejected.
  With slug mode disabled the gate returns the request as it is, and a request with a
  non-empty URL gets no redirect: it is passed on to the file server unchanged.
\<close>

theorem slug_path_redirects:
  "(slug \<noteq> '''' \<and> URL req = Some u \<and> TrimLeft u ''/'' = slug \<and> Parse '''' = Some ''''
      \<longrightarrow> Redirect (''/'' @ slug @ ''/'') 302 \<in> set (handler Parse p slug w req))
   \<and> (slug \<noteq> '''' \<and> URL req1 = Some ''/''
      \<longrightarrow> visible (handler Parse p slug w req1) = (if w = Hijacker None then [ConnClose] else []))
   \<and> CheckAndRewriteSlug Parse req2 '''' = Some (None, req2)
   \<and> (URL req2 = Some u2 \<and> u2 \<noteq> ''''
      \<longrightarrow> visible (handler Parse p '''' w req2) = [ServeHTTP req2])"
proof (intro conjI impI)
  assume a: "slug \<noteq> '''' \<and> URL req = Some u \<and> TrimLeft u ''/'' = slug \<and> Parse '''' = Some ''''"
  then have "prefix slug (TrimLeft u ''/'')" by simp
  from handler_match [OF _ _ this, of req Parse p w] a
  have "Redirect (''/'' @ slug @ ''/'') 302 \<in> set (visible (handler Parse p slug w req))"
    by simp
  then show "Redirect (''/'' @ slug @ ''/'') 302 \<in> set (handler Parse p slug w req)"
    by (rule member_visible)
next
  assume a: "slug \<noteq> '''' \<and> URL req1 = Some ''/''"
  then have "\<not> prefix slug (TrimLeft ''/'' ''/'')" by (simp add: TrimLeft_def)
  with a show "visible (handler Parse p slug w req1) = (if w = Hijacker None then [ConnClose] else [])"
    by (intro handler_mismatch) auto
next
  show "CheckAndRewriteSlug Parse req2 '''' = Some (None, req2)"
    by (simp add: CheckAndRewriteSlug_def)
next
  assume "URL req2 = Some u2 \<and> u2 \<noteq> ''''"
  then show "visible (handler Parse p '''' w req2) = [ServeHTTP req2]"
    using handler_no_slug [of req2 u2 Parse p w] by simp
qed

theorem slug_path_redirects_witness:
  "(''abcdefghijklmnop'' \<noteq> '''' \<and> URL \<lparr>URL = Some ''/abcdefghijklmnop''\<rparr> = Some ''/abcdefghijklmnop''
      \<and> TrimLeft ''/abcdefghijklmnop'' ''/'' = ''abcdefghijklmnop'' \<and> sampleParse '''' = Some '''')
   \<and> Redirect ''/abcdefghijklmnop/'' 302
        \<in> set (handler sampleParse params0 ''abcdefghijklmnop'' PlainWriter
                 \<lparr>URL = Some ''/abcdefghijklmnop''\<rparr>)
   \<and> URL \<lparr>URL = Some ''/''\<rparr> = Some ''/''
   \<and> visible (handler sampleParse params0 ''abcdefghijklmnop'' PlainWriter \<lparr>URL = Some ''/''\<rparr>) = []
   \<and> CheckAndRewriteSlug sampleParse \<lparr>URL = Some ''/index.html''\<rparr> ''''
        = Some (None, \<lparr>URL = Some ''/index.html''\<rparr>)
   \<and> (URL \<lparr>URL = Some ''/index.html''\<rparr> = Some ''/index.html'' \<and> ''/index.html'' \<noteq> '''')
   \<and> visible (handler sampleParse params0 '''' PlainWriter \<lparr>URL = Some ''/index.html''\<rparr>)
        = [ServeHTTP \<lparr>URL = Some ''/index.html''\<rparr>]"
  using slug_path_redirects [of "''abcdefghijklmnop''" "\<lparr>URL = Some ''/abcdefghijklmnop''\<rparr>"
      "''/abcdefghijklmnop''" sampleParse params0 PlainWriter "\<lparr>URL = Some ''/''\<rparr>"
      "\<lparr>URL = Some ''/index.html''\<rparr>" "''/index.html''"]
  by (simp add: TrimLeft_def sampleParse_def)

text \<open>
  C7, as the spec states it, fails: \<open>strings.TrimLeft\<close> removes every leading
  separator, not one, so a request with two separators before the slug matches and is
  rewritten like the request with one.
\<close>

theorem two_separators_match:
  "CheckAndRewriteSlug sampleParse \<lparr>URL = Some ''//abcdefghijklmnop/index.html''\<rparr> ''abcdefghijklmnop''
     = Some (None, \<lparr>URL = Some ''/index.html''\<rparr>)
   \<and> CheckAndRewriteSlug sampleParse \<lparr>URL = Some ''/abcdefghijklmnop/index.html''\<rparr> ''abcdefghijklmnop''
     = Some (None, \<lparr>URL = Some ''/index.html''\<rparr>)"
  using CheckAndRewriteSlug_cases [of "''abcdefghijklmnop''"
      "\<lparr>URL = Some ''//abcdefghijklmnop/index.html''\<rparr>" "''//abcdefghijklmnop/index.html''" sampleParse]
    CheckAndRewriteSlug_cases [of "''abcdefghijklmnop''"
      "\<lparr>URL = Some ''/abcdefghijklmnop/index.html''\<rparr>" "''/abcdefghijklmnop/index.html''" sampleParse]
  by (simp add: TrimLeft_def sampleParse_def)

text \<open>
  C7, amended. Under slug mode the gate strips all leading separators of the URL and
  compares the first \<open>len(slug)\<close> bytes of what is left with the slug: a shorter URL
  and a differing one are rejected, a matching one has the separators and the slug
  removed and what follows the slug re-parsed, separators included. So a request with
  any number of separators before a slug that holds no separator matches.
\<close>

theorem gate_strips_all_separators:
  assumes "slug \<noteq> ''''" and "URL req = Some u"
  shows "CheckAndRewriteSlug Parse req slug =
           Some (let t = dropWhile (\<lambda>c. c = CHR ''/'') u in
                 if length t < length slug
                 then (Some ''URL is too short to have a slug in it'', req)
                 else if take (length slug) t \<noteq> slug
                 then (Some ''Wrong slug'', req)
                 else (None, req\<lparr>URL := Parse (drop (length slug) t)\<rparr>))
       \<and> (CHR ''/'' \<notin> set slug \<and> u = replicate n CHR ''/'' @ slug @ rest
            \<longrightarrow> CheckAndRewriteSlug Parse req slug = Some (None, req\<lparr>URL := Parse rest\<rparr>))"
proof (intro conjI impI)
  let ?t = "dropWhile (\<lambda>c. c = CHR ''/'') u"
  have t: "TrimLeft u ''/'' = ?t" by (rule TrimLeft_slash)
  show "CheckAndRewriteSlug Parse req slug =
           Some (let t = ?t in
                 if length t < length slug
                 then (Some ''URL is too short to have a slug in it'', req)
                 else if take (length slug) t \<noteq> slug
                 then (Some ''Wrong slug'', req)
                 else (None, req\<lparr>URL := Parse (drop (length slug) t)\<rparr>))"
  proof (cases "length ?t < length slug")
    case True
    then show ?thesis using CheckAndRewriteSlug_cases [OF assms, of Parse] t by simp
  next
    case False
    then have "(take (length slug) ?t = slug) = prefix slug ?t"
      by (simp add: take_eq_prefix)
    then show ?thesis using CheckAndRewriteSlug_cases [OF assms, of Parse] t False
      by (simp add: Let_def)
  qed
next
  assume a: "CHR ''/'' \<notin> set slug \<and> u = replicate n CHR ''/'' @ slug @ rest"
  then have "TrimLeft u ''/'' = slug @ rest"
    using TrimLeft_slashes [of slug n rest] assms(1) by simp
  then show "CheckAndRewriteSlug Parse req slug = Some (None, req\<lparr>URL := Parse rest\<rparr>)"
    using CheckAndRewriteSlug_match [OF assms, of Parse] by simp
qed

theorem gate_strips_all_separators_witness:
  "''abcdefghijklmnop'' \<noteq> ''''
   \<and> URL \<lparr>URL = Some ''///abcdefghijklmnop//a''\<rparr> = Some ''///abcdefghijklmnop//a''
   \<and> CHR ''/'' \<notin> set ''abcdefghijklmnop''
   \<and> ''///abcdefghijklmnop//a'' = replicate 3 CHR ''/'' @ ''abcdefghijklmnop'' @ ''//a''
   \<and> CheckAndRewriteSlug sampleParse \<lparr>URL = Some ''///abcdefghijklmnop//a''\<rparr> ''abcdefghijklmnop''
        = Some (None, \<lparr>URL = Some ''//a''\<rparr>)"
  using gate_strips_all_separators [of "''abcdefghijklmnop''" "\<lparr>URL = Some ''///abcdefghijklmnop//a''\<rparr>"
      "''///abcdefghijklmnop//a''" sampleParse 3 "''//a''"]
  by (simp add: sampleParse_def numeral_3_eq_3)

text \<open>
  C9. Under slug mode, when nothing is left of the URL once the slug is stripped (the
  re-parsed URL renders as the empty text, as for a request of exactly \<open>"/" + slug\<close>),
  the handler writes the 302 redirect and then, with no return in between, also calls
  the file server on the rewritten request.
\<close>

theorem redirect_falls_through:
  assumes "slug \<noteq> ''''" and "URL req = Some u" and "prefix slug (TrimLeft u ''/'')"
    and "Parse (drop (length slug) (TrimLeft u ''/'')) = Some ''''"
  shows "visible (handler Parse p slug w req) =
           [Redirect (''/'' @ slug @ ''/'') 302, ServeHTTP (req\<lparr>URL := Some ''''\<rparr>)]"
  using handler_match [OF assms(1-3), of Parse p w] assms(4) by simp

theorem redirect_falls_through_witness:
  "''abcdefghijklmnop'' \<noteq> ''''
   \<and> URL \<lparr>URL = Some ''/abcdefghijklmnop''\<rparr> = Some ''/abcdefghijklmnop''
   \<and> prefix ''abcdefghijklmnop'' (TrimLeft ''/abcdefghijklmnop'' ''/'')
   \<and> sampleParse (drop (length ''abcdefghijklmnop'') (TrimLeft ''/abcdefghijklmnop'' ''/'')) = Some ''''
   \<and> visible (handler sampleParse params0 ''abcdefghijklmnop'' (Hijacker None)
                \<lparr>URL = Some ''/abcdefghijklmnop''\<rparr>)
        = [Redirect ''/abcdefghijklmnop/'' 302, ServeHTTP \<lparr>URL = Some ''''\<rparr>]"
  using redirect_falls_through [of "''abcdefghijklmnop''" "\<lparr>URL = Some ''/abcdefghijklmnop''\<rparr>"
      "''/abcdefghijklmnop''" sampleParse params0 "Hijacker None"]
  by (simp add: TrimLeft_def sampleParse_def)

text \<open>
  C10. For a request that matches the slug, what follows the slug is parsed again and
  the result is stored in the request's URL, while the gate returns no error whatever
  the parser says. When the parser fails, the stored URL is nil and the handler does
  not take its rejection branch: it goes on with the nil URL, whose dereference by
  \<open>req.URL.String()\<close> is the next thing that happens.
\<close>

theorem parse_error_discarded:
  assumes "slug \<noteq> ''''" and "URL req = Some u" and "prefix slug (TrimLeft u ''/'')"
  shows "CheckAndRewriteSlug Parse req slug =
           Some (None, req\<lparr>URL := Parse (drop (length slug) (TrimLeft u ''/''))\<rparr>)
       \<and> (Parse (drop (length slug) (TrimLeft u ''/'')) = None
            \<longrightarrow> CheckAndRewriteSlug Parse req slug = Some (None, req\<lparr>URL := None\<rparr>)
              \<and> ConnClose \<notin> set (handler Parse p slug w req)
              \<and> visible (handler Parse p slug w req) = [NilDereference])"
proof (intro conjI impI)
  show m: "CheckAndRewriteSlug Parse req slug =
           Some (None, req\<lparr>URL := Parse (drop (length slug) (TrimLeft u ''/''))\<rparr>)"
    using assms by (rule CheckAndRewriteSlug_match)
  assume n: "Parse (drop (length slug) (TrimLeft u ''/'')) = None"
  show "CheckAndRewriteSlug Parse req slug = Some (None, req\<lparr>URL := None\<rparr>)"
    using m n by simp
  show v: "visible (handler Parse p slug w req) = [NilDereference]"
    using handler_match [OF assms, of Parse p w] n by simp
  show "ConnClose \<notin> set (handler Parse p slug w req)"
  proof
    assume "ConnClose \<in> set (handler Parse p slug w req)"
    then have "ConnClose \<in> set (visible (handler Parse p slug w req))"
      by (rule visible_member) simp
    then show False using v by simp
  qed
qed

theorem parse_error_discarded_witness:
  "''abcdefghijklmnop'' \<noteq> ''''
   \<and> URL \<lparr>URL = Some ''/abcdefghijklmnop:a''\<rparr> = Some ''/abcdefghijklmnop:a''
   \<and> prefix ''abcdefghijklmnop'' (TrimLeft ''/abcdefghijklmnop:a'' ''/'')
   \<and> sampleParse (drop (length ''abcdefghijklmnop'') (TrimLeft ''/abcdefghijklmnop:a'' ''/'')) = None
   \<and> CheckAndRewriteSlug sampleParse \<lparr>URL = Some ''/abcdefghijklmnop:a''\<rparr> ''abcdefghijklmnop''
        = Some (None, \<lparr>URL = None\<rparr>)
   \<and> visible (handler sampleParse params0 ''abcdefghijklmnop'' (Hijacker None)
                \<lparr>URL = Some ''/abcdefghijklmnop:a''\<rparr>) = [NilDereference]"
  using parse_error_discarded [of "''abcdefghijklmnop''" "\<lparr>URL = Some ''/abcdefghijklmnop:a''\<rparr>"
      "''/abcdefghijklmnop:a''" sampleParse params0 "Hijacker None"]
  by (simp add: TrimLeft_def sampleParse_def)

section \<open>The shape of an invocation\<close>

lemma makeSlug_Inl:
  assumes "makeSlug w p = Inl r"
  shows "(r = ([], Panicked) \<and> (\<exists>b. length (Base32Encode w b) < slugLengthB32))
          \<or> (\<exists>m. r = failWith m)"
  using assms by (auto simp: makeSlug_def Let_def split: if_splits sum.splits)

lemma makeFS_Inl:
  assumes "makeFS w p url = Inl r"
  shows "\<exists>m. r = failWith m"
  using assms
  by (auto simp: makeFS_def Let_def split: if_splits sum.splits option.splits prod.splits)

lemma makeConfig_Inl:
  assumes "makeConfig w p = Inl r"
  shows "\<exists>m. r = failWith m"
  using assms by (auto simp: makeConfig_def Let_def split: if_splits sum.splits)

lemma makeConfig_Inr:
  assumes "makeConfig w p = Inr cfg"
  shows "DiscardPK cfg \<and> AwaitForUpload cfg \<and> (PrivateKey cfg = None) = (Passphrase p = '''')"
  using assms by (auto simp: makeConfig_def Let_def split: if_splits sum.splits)

lemma serve_cases:
  "serve w slug fs = ([ServeStart slug fs], Serving) \<or>
   serve w slug fs = ([ServeStart slug fs], Returned) \<or>
   serve w slug fs = ([ServeStart slug fs, Fatalf ''Cannot serve HTTP''], Exited)"
  by (auto simp: serve_def split: ServeResult.splits option.splits)

lemma publish_cases:
  "(\<exists>m. publish w p slug url fs = ([Send (errLink m)], Returned))
 \<or> (\<exists>m. publish w p slug url fs = ([Dialed, Send (errLink m), CloseControl], Returned))
 \<or> (\<exists>m cfg. makeConfig w p = Inr cfg \<and>
        publish w p slug url fs =
          ([Dialed, NewListenerCall cfg 80, Send (errLink m), CloseControl], Returned))
 \<or> (\<exists>cfg addr ts e. makeConfig w p = Inr cfg \<and> NewListener w cfg 80 = Inr addr \<and>
        publish w p slug url fs =
          ([Dialed, NewListenerCall cfg 80, GoMonitor, Send (okLink (TrimSuffix addr '':80'') url),
            ServeStart slug fs] @ ts, e)
        \<and> ((ts, e) = ([], Serving) \<or> (ts, e) = ([CloseListener, CloseControl], Returned)
             \<or> (ts, e) = ([Fatalf ''Cannot serve HTTP''], Exited)))"
proof (cases "DialURL w (ControlPath p)")
  case (Some err)
  then show ?thesis by (auto simp: publish_def failWith_def)
next
  case dial: None
  show ?thesis
  proof (cases "Authenticate w (ControlPassword p)")
    case (Some err)
    then show ?thesis using dial
      by (auto simp: publish_def failWith_def after_def deferred_def)
  next
    case auth: None
    show ?thesis
    proof (cases "makeConfig w p")
      case (Inl r)
      then obtain m where "r = failWith m" using makeConfig_Inl by blast
      then show ?thesis using dial auth Inl
        by (auto simp: publish_def failWith_def after_def deferred_def)
    next
      case cfg: (Inr cfg)
      show ?thesis
      proof (cases "NewListener w cfg 80")
        case (Inl err)
        then show ?thesis using dial auth cfg
          by (auto simp: publish_def failWith_def after_def deferred_def)
      next
        case (Inr addr)
        then show ?thesis using dial auth cfg serve_cases [of w slug fs]
          by (auto simp: publish_def after_def deferred_def)
      qed
    qed
  qed
qed

lemma isTail_simps [simp]:
  "isTail (ServeStart s f)" "isTail CloseControl" "isTail CloseListener" "isTail (Fatalf m)"
  "isTail (lostTor err)"
  "\<not> isTail (Send r)" "\<not> isTail Dialed" "\<not> isTail (NewListenerCall c n)" "\<not> isTail GoMonitor"
  by (simp_all add: isTail_def lostTor_def)

lemma list_all_take: "list_all P xs \<Longrightarrow> list_all P (take n xs)"
  by (metis append_take_drop_id list_all_append)

lemma Onionize_main_cases:
  "(Onionize_main w p = ([], Panicked) \<and> (\<exists>b. length (Base32Encode w b) < slugLengthB32))
 \<or> (\<exists>m. Onionize_main w p = ([Send (errLink m)], Returned))
 \<or> (\<exists>m. Onionize_main w p = ([Dialed, Send (errLink m), CloseControl], Returned))
 \<or> (\<exists>m cfg. makeConfig w p = Inr cfg \<and>
        Onionize_main w p =
          ([Dialed, NewListenerCall cfg 80, Send (errLink m), CloseControl], Returned))
 \<or> (\<exists>cfg addr slug url fs ts e. makeConfig w p = Inr cfg \<and> NewListener w cfg 80 = Inr addr \<and>
        Onionize_main w p =
          ([Dialed, NewListenerCall cfg 80, GoMonitor, Send (okLink (TrimSuffix addr '':80'') url),
            ServeStart slug fs] @ ts, e)
        \<and> list_all isTail ts)"
proof (cases "makeSlug w p")
  case (Inl r)
  then show ?thesis using makeSlug_Inl [OF Inl]
    by (auto simp: Onionize_main_def failWith_def)
next
  case slug: (Inr su)
  obtain slug url where su: "su = (slug, url)" by (cases su)
  show ?thesis
  proof (cases "makeFS w p url")
    case (Inl r)
    then show ?thesis using makeFS_Inl [OF Inl] slug su
      by (auto simp: Onionize_main_def failWith_def)
  next
    case (Inr fu)
    obtain fs url' where fu: "fu = (fs, url')" by (cases fu)
    have "Onionize_main w p = publish w p slug url' fs"
      using slug su Inr fu by (simp add: Onionize_main_def)
    then show ?thesis using publish_cases [of w p slug url' fs]
      by (elim disjE exE conjE) (simp; blast)+
  qed
qed


lemma Onionize_cases:
  "(Onionize w p = ([], Panicked) \<and> (\<exists>b. length (Base32Encode w b) < slugLengthB32))
 \<or> (\<exists>m. Onionize w p = ([Send (errLink m)], Returned))
 \<or> (\<exists>m. Onionize w p = ([Dialed, Send (errLink m), CloseControl], Returned))
 \<or> (\<exists>m cfg. makeConfig w p = Inr cfg \<and>
        Onionize w p = ([Dialed, NewListenerCall cfg 80, Send (errLink m), CloseControl], Returned))
 \<or> (\<exists>cfg addr err. makeConfig w p = Inr cfg \<and> NewListener w cfg 80 = Inr addr \<and>
        NextEvent_error w = Some (0, err) \<and>
        Onionize w p = ([Dialed, NewListenerCall cfg 80, GoMonitor, lostTor err], Exited))
 \<or> (\<exists>cfg addr url rest e. makeConfig w p = Inr cfg \<and> NewListener w cfg 80 = Inr addr \<and>
        (\<forall>err. NextEvent_error w \<noteq> Some (0, err)) \<and> list_all isTail rest \<and>
        Onionize w p =
          ([Dialed, NewListenerCall cfg 80, GoMonitor, Send (okLink (TrimSuffix addr '':80'') url)]
             @ rest, e))"
  using Onionize_main_cases [of w p]
proof (elim disjE exE conjE)
  fix cfg addr slug url fs ts e
  assume cfg: "makeConfig w p = Inr cfg" and addr: "NewListener w cfg 80 = Inr addr"
    and main: "Onionize_main w p =
          ([Dialed, NewListenerCall cfg 80, GoMonitor, Send (okLink (TrimSuffix addr '':80'') url),
            ServeStart slug fs] @ ts, e)"
    and tse: "list_all isTail ts"
  let ?r = "okLink (TrimSuffix addr '':80'') url"
  let ?evs = "[Dialed, NewListenerCall cfg 80, GoMonitor, Send ?r] @ (ServeStart slug fs # ts)"
  have tail: "list_all isTail (ServeStart slug fs # ts)" using tse by simp
  have n: "Suc (length (takeWhile (\<lambda>x. x \<noteq> GoMonitor) ?evs)) = 3" by simp
  show ?thesis
  proof (cases "NextEvent_error w")
    case None
    then have "Onionize w p = (?evs, e)" using main by (simp add: Onionize_def)
    then show ?thesis using cfg addr tail None by auto
  next
    case (Some ke)
    obtain k err where ke: "ke = (k, err)" by (cases ke)
    show ?thesis
    proof (cases k)
      case 0
      then have "Onionize w p = ([Dialed, NewListenerCall cfg 80, GoMonitor, lostTor err], Exited)"
        using main Some ke by (simp add: Onionize_def)
      then show ?thesis using cfg addr Some ke 0 by auto
    next
      case (Suc k')
      have nz: "\<forall>err. NextEvent_error w \<noteq> Some (0, err)" using Some ke Suc by simp
      have "\<exists>rest e'. list_all isTail rest \<and>
              Onionize w p = ([Dialed, NewListenerCall cfg 80, GoMonitor, Send ?r] @ rest, e')"
      proof (cases "3 + k < length ?evs")
        case True
        then have "Onionize w p =
            ([Dialed, NewListenerCall cfg 80, GoMonitor, Send ?r]
               @ (take k' (ServeStart slug fs # ts) @ [lostTor err]), Exited)"
          using main Some ke Suc by (simp add: Onionize_def)
        moreover have "list_all isTail (take k' (ServeStart slug fs # ts) @ [lostTor err])"
          using list_all_take [OF tail, of k'] by simp
        ultimately show ?thesis by blast
      next
        case False
        then have "Onionize w p = (?evs, e) \<or> Onionize w p = (?evs @ [lostTor err], Exited)"
          using main Some ke by (simp add: Onionize_def)
        moreover have "list_all isTail ((ServeStart slug fs # ts) @ [lostTor err])"
          using tail by simp
        ultimately show ?thesis using tail by (metis append_assoc)
      qed
      then show ?thesis using cfg addr nz by blast
    qed
  qed
qed (auto simp: Onionize_def split: option.splits)

lemma isSend_simps [simp]:
  "isSend (Send r)" "\<not> isSend Dialed" "\<not> isSend (NewListenerCall c n)" "\<not> isSend GoMonitor"
  "\<not> isSend (ServeStart s f)" "\<not> isSend CloseControl" "\<not> isSend CloseListener"
  "\<not> isSend (Fatalf m)" "\<not> isSend (lostTor err)"
  by (simp_all add: isSend_def lostTor_def)

lemma isTail_not_Send: "list_all isTail rest \<Longrightarrow> filter isSend rest = []"
  by (induction rest) (auto simp: isTail_def isSend_def split: event.splits)

lemma isTail_no_Send: "list_all isTail rest \<Longrightarrow> Send r \<notin> set rest"
  by (auto simp: list_all_iff isTail_def)

lemma isTail_no_call: "list_all isTail rest \<Longrightarrow> NewListenerCall c n \<notin> set rest"
  by (auto simp: list_all_iff isTail_def)

lemma linkError_simps [simp]:
  "linkError (errLink m) = Some m" "linkError (okLink h u) = None"
  by (simp_all add: errLink_def okLink_def)

lemma sends_at_most_one:
  assumes "Onionize w p = (evs, e)"
  shows "length (filter isSend evs) \<le> 1"
  using Onionize_cases [of w p] assms
  by (elim disjE exE conjE) (auto simp: isTail_not_Send)

lemma sends_exactly_one:
  assumes "Onionize w p = (evs, e)"
    and "\<forall>b. slugLengthB32 \<le> length (Base32Encode w b)"
    and "\<forall>err. NextEvent_error w \<noteq> Some (0, err)"
  shows "length (filter isSend evs) = 1"
  using Onionize_cases [of w p] assms
  by (elim disjE exE conjE) (auto simp: isTail_not_Send not_less [symmetric])

lemma link_after_listener:
  assumes "Onionize w p = (evs, e)" and "Send r \<in> set evs" and "linkError r = None"
  shows "\<exists>cfg addr rest. NewListener w cfg 80 = Inr addr
           \<and> evs = [Dialed, NewListenerCall cfg 80, GoMonitor, Send r] @ rest
           \<and> filter isSend rest = []"
  using Onionize_cases [of w p] assms
  by (elim disjE exE conjE) (auto simp: isTail_not_Send isTail_no_Send lostTor_def)

lemma serve_after_link:
  assumes "Onionize w p = (evs, e)" and "ServeStart slug fs \<in> set evs"
  shows "\<exists>pre r rest. evs = pre @ [Send r] @ rest \<and> linkError r = None
           \<and> ServeStart slug fs \<notin> set pre \<and> ServeStart slug fs \<in> set rest
           \<and> filter isSend pre = [] \<and> filter isSend rest = []"
  using Onionize_cases [of w p] assms
proof (elim disjE exE conjE)
  fix cfg addr url rest e'
  assume tail: "list_all isTail rest"
    and run: "Onionize w p =
      ([Dialed, NewListenerCall cfg 80, GoMonitor, Send (okLink (TrimSuffix addr '':80'') url)] @ rest, e')"
  let ?pre = "[Dialed, NewListenerCall cfg 80, GoMonitor]"
  let ?r = "okLink (TrimSuffix addr '':80'') url"
  have evs: "evs = ?pre @ [Send ?r] @ rest" using run assms(1) by simp
  then have "ServeStart slug fs \<in> set rest" using assms(2) by simp
  moreover have "filter isSend rest = []" using tail by (rule isTail_not_Send)
  moreover have "ServeStart slug fs \<notin> set ?pre" "filter isSend ?pre = []" "linkError ?r = None"
    by simp_all
  ultimately show ?thesis using evs by blast
qed (auto simp: lostTor_def)

section \<open>Claims about the lifecycle\<close>

lemma world0_run:
  "Onionize world0 params0 =
     ([Dialed,
       NewListenerCall \<lparr>DiscardPK = True, AwaitForUpload = True, PrivateKey = None\<rparr> 80,
       GoMonitor,
       Send (okLink ''onionaddress.onion'' ''abcdefghijklmnop/''),
       ServeStart ''abcdefghijklmnop'' (DirFS ''site'')], Serving)"
  by (simp add: Onionize_def Onionize_main_def makeSlug_def makeFS_def publish_def
      makeConfig_def serve_def world0_def params0_def after_def deferred_def
      TrimSuffix_def suffix_to_prefix slugLengthB32_def Let_def)

text \<open>
  C2, as the spec states it, fails: the goroutine that watches the control connection
  is started before the link is sent, so when \<open>c.NextEvent()\<close> reports an error at
  once, \<open>log.Fatalf\<close> ends the process and nothing was sent on the channel.
\<close>

theorem monitor_abort_sends_nothing:
  "Onionize (world0\<lparr>NextEvent_error := Some (0, ''EOF'')\<rparr>) params0 =
     ([Dialed,
       NewListenerCall \<lparr>DiscardPK = True, AwaitForUpload = True, PrivateKey = None\<rparr> 80,
       GoMonitor,
       Fatalf ''Lost connection to tor: EOF''], Exited)
   \<and> filter isSend (fst (Onionize (world0\<lparr>NextEvent_error := Some (0, ''EOF'')\<rparr>) params0)) = []"
  by (simp add: Onionize_def Onionize_main_def makeSlug_def makeFS_def publish_def
      makeConfig_def serve_def world0_def params0_def after_def deferred_def
      TrimSuffix_def suffix_to_prefix slugLengthB32_def Let_def lostTor_def isSend_def)

text \<open>
  C2, amended. In every invocation at most one \<open>ResultLink\<close> is sent, and exactly one
  unless the monitoring goroutine ends the process before the send (the slice
  expression of the slug is taken not to panic: the encoder yields at least 16
  characters). A link without error is sent only after \<open>c.NewListener\<close> has returned
  the listener, as the first step after the \<open>go\<close> statement, and nothing is sent after
  it. \<open>server.Serve\<close> is called only after that send, and nothing is sent once it is
  called, whatever the server or the control connection do later.
\<close>

theorem result_sent_once:
  assumes "Onionize w p = (evs, e)"
  shows "length (filter isSend evs) \<le> 1
       \<and> ((\<forall>b. slugLengthB32 \<le> length (Base32Encode w b))
            \<and> (\<forall>err. NextEvent_error w \<noteq> Some (0, err))
            \<longrightarrow> length (filter isSend evs) = 1)
       \<and> (Send r \<in> set evs \<and> linkError r = None
            \<longrightarrow> (\<exists>cfg addr rest. NewListener w cfg 80 = Inr addr
                   \<and> evs = [Dialed, NewListenerCall cfg 80, GoMonitor, Send r] @ rest
                   \<and> filter isSend rest = []))
       \<and> (ServeStart slug fs \<in> set evs
            \<longrightarrow> (\<exists>pre r' rest. evs = pre @ [Send r'] @ rest \<and> linkError r' = None
                   \<and> ServeStart slug fs \<notin> set pre \<and> ServeStart slug fs \<in> set rest
                   \<and> filter isSend pre = [] \<and> filter isSend rest = []))"
proof (intro conjI impI)
  show "length (filter isSend evs) \<le> 1"
    using assms by (rule sends_at_most_one)
next
  assume "(\<forall>b. slugLengthB32 \<le> length (Base32Encode w b))
            \<and> (\<forall>err. NextEvent_error w \<noteq> Some (0, err))"
  then show "length (filter isSend evs) = 1"
    using sends_exactly_one [OF assms] by blast
next
  assume "Send r \<in> set evs \<and> linkError r = None"
  then show "\<exists>cfg addr rest. NewListener w cfg 80 = Inr addr
                   \<and> evs = [Dialed, NewListenerCall cfg 80, GoMonitor, Send r] @ rest
                   \<and> filter isSend rest = []"
    using link_after_listener [OF assms] by blast
next
  assume "ServeStart slug fs \<in> set evs"
  then show "\<exists>pre r' rest. evs = pre @ [Send r'] @ rest \<and> linkError r' = None
                   \<and> ServeStart slug fs \<notin> set pre \<and> ServeStart slug fs \<in> set rest
                   \<and> filter isSend pre = [] \<and> filter isSend rest = []"
    using serve_after_link [OF assms] by blast
qed

theorem result_sent_once_witness:
  "Onionize world0 params0 =
     ([Dialed,
       NewListenerCall \<lparr>DiscardPK = True, AwaitForUpload = True, PrivateKey = None\<rparr> 80,
       GoMonitor,
       Send (okLink ''onionaddress.onion'' ''abcdefghijklmnop/''),
       ServeStart ''abcdefghijklmnop'' (DirFS ''site'')], Serving)
   \<and> (\<forall>b. slugLengthB32 \<le> length (Base32Encode world0 b))
   \<and> (\<forall>err. NextEvent_error world0 \<noteq> Some (0, err))
   \<and> linkError (okLink ''onionaddress.onion'' ''abcdefghijklmnop/'') = None
   \<and> length (filter isSend
        [Dialed,
         NewListenerCall \<lparr>DiscardPK = True, AwaitForUpload = True, PrivateKey = None\<rparr> 80,
         GoMonitor,
         Send (okLink ''onionaddress.onion'' ''abcdefghijklmnop/''),
         ServeStart ''abcdefghijklmnop'' (DirFS ''site'')]) = 1
   \<and> (\<exists>cfg addr rest. NewListener world0 cfg 80 = Inr addr
        \<and> [Dialed,
            NewListenerCall \<lparr>DiscardPK = True, AwaitForUpload = True, PrivateKey = None\<rparr> 80,
            GoMonitor,
            Send (okLink ''onionaddress.onion'' ''abcdefghijklmnop/''),
            ServeStart ''abcdefghijklmnop'' (DirFS ''site'')]
           = [Dialed, NewListenerCall cfg 80, GoMonitor,
              Send (okLink ''onionaddress.onion'' ''abcdefghijklmnop/'')] @ rest
        \<and> filter isSend rest = [])"
proof -
  have b: "\<forall>b. slugLengthB32 \<le> length (Base32Encode world0 b)"
    by (simp add: world0_def slugLengthB32_def)
  have n: "\<forall>err. NextEvent_error world0 \<noteq> Some (0, err)"
    by (simp add: world0_def)
  from result_sent_once [OF world0_run, of "okLink ''onionaddress.onion'' ''abcdefghijklmnop/''"
      "''abcdefghijklmnop''" "DirFS ''site''"] b n world0_run
  show ?thesis by simp
qed

lemma call_config:
  assumes "Onionize w p = (evs, e)" and "NewListenerCall cfg port \<in> set evs"
  shows "makeConfig w p = Inr cfg \<and> port = 80"
  using Onionize_cases [of w p] assms
  by (elim disjE exE conjE) (auto simp: isTail_no_call lostTor_def)




text \<open>
  C5. Whenever \<open>c.NewListener\<close> is called, its configuration asks to wait for the
  upload of the descriptor (\<open>AwaitForUpload\<close>) and to discard the private key
  (\<open>DiscardPK\<close>), for port 80; it carries a private key exactly when a passphrase was
  given. So without a passphrase the key is never asked to be kept.
\<close>

theorem listener_config:
  assumes "Onionize w p = (evs, e)" and "NewListenerCall cfg port \<in> set evs"
  shows "AwaitForUpload cfg \<and> DiscardPK cfg \<and> port = 80
       \<and> (PrivateKey cfg = None) = (Passphrase p = '''')"
  using call_config [OF assms] makeConfig_Inr [of w p cfg] by simp

theorem listener_config_witness:
  "Onionize world0 params0 =
     ([Dialed,
       NewListenerCall \<lparr>DiscardPK = True, AwaitForUpload = True, PrivateKey = None\<rparr> 80,
       GoMonitor,
       Send (okLink ''onionaddress.onion'' ''abcdefghijklmnop/''),
       ServeStart ''abcdefghijklmnop'' (DirFS ''site'')], Serving)
   \<and> NewListenerCall \<lparr>DiscardPK = True, AwaitForUpload = True, PrivateKey = None\<rparr> 80
       \<in> set [Dialed,
              NewListenerCall \<lparr>DiscardPK = True, AwaitForUpload = True, PrivateKey = None\<rparr> 80,
              GoMonitor,
              Send (okLink ''onionaddress.onion'' ''abcdefghijklmnop/''),
              ServeStart ''abcdefghijklmnop'' (DirFS ''site'')]
   \<and> AwaitForUpload \<lparr>DiscardPK = True, AwaitForUpload = True, PrivateKey = None\<rparr>
   \<and> DiscardPK \<lparr>DiscardPK = True, AwaitForUpload = True, PrivateKey = None\<rparr>
   \<and> Passphrase params0 = ''''"
  using listener_config [OF world0_run,
      of "\<lparr>DiscardPK = True, AwaitForUpload = True, PrivateKey = None\<rparr>" 80] world0_run
  by simp

text \<open>
  C6 does not hold of the code. When \<open>server.Serve\<close> returns an error, or when the
  goroutine sees \<open>c.NextEvent()\<close> fail, \<open>log.Fatalf\<close> exits the process: the deferred
  \<open>c.Close()\<close> and \<open>onionListener.Close()\<close> never run. The error returns of the same
  function do run them, as the third invocation shows (the listener is refused).
\<close>

theorem fatal_exit_skips_cleanup:
  "Onionize (world0\<lparr>Serve := ServeReturns (Some ''closed'')\<rparr>) params0 =
     ([Dialed,
       NewListenerCall \<lparr>DiscardPK = True, AwaitForUpload = True, PrivateKey = None\<rparr> 80,
       GoMonitor,
       Send (okLink ''onionaddress.onion'' ''abcdefghijklmnop/''),
       ServeStart ''abcdefghijklmnop'' (DirFS ''site''),
       Fatalf ''Cannot serve HTTP''], Exited)
   \<and> Onionize (world0\<lparr>NextEvent_error := Some (2, ''EOF'')\<rparr>) params0 =
     ([Dialed,
       NewListenerCall \<lparr>DiscardPK = True, AwaitForUpload = True, PrivateKey = None\<rparr> 80,
       GoMonitor,
       Send (okLink ''onionaddress.onion'' ''abcdefghijklmnop/''),
       ServeStart ''abcdefghijklmnop'' (DirFS ''site''),
       Fatalf ''Lost connection to tor: EOF''], Exited)
   \<and> Onionize (world0\<lparr>NewListener := (\<lambda>cfg port. Inl ''refused'')\<rparr>) params0 =
     ([Dialed,
       NewListenerCall \<lparr>DiscardPK = True, AwaitForUpload = True, PrivateKey = None\<rparr> 80,
       Send (errLink ''Error occured while creating an onion service: refused''),
       CloseControl], Returned)"
  by (simp add: Onionize_def Onionize_main_def makeSlug_def makeFS_def publish_def
      makeConfig_def serve_def world0_def params0_def after_def deferred_def failWith_def
      TrimSuffix_def suffix_to_prefix slugLengthB32_def Let_def lostTor_def)





end
